theory Spec2Isabelle
  imports Main
begin

section \<open>Python values, errors and computations\<close>

text \<open>
  Values that come out of configuration files and of the analyzer's JSON output.
  Numbers are integers in this model; a string is a list of characters and its
  length counts them.
\<close>

datatype pyval =
    PNone
  | PBool bool
  | PInt int
  | PStr string
  | PList "pyval list"
  | PDict "(string \<times> pyval) list"

text \<open>The exceptions of the program; all of them are subclasses of \<open>Exception\<close>.\<close>

datatype error =
    ValueError string
  | TypeError
  | AttributeError
  | KeyError string
  | Exception string
  | OSError string

text \<open>Python's truth value of an object (\<open>if x:\<close>, \<open>not x\<close>, \<open>x or y\<close>).\<close>

fun truthy :: "pyval \<Rightarrow> bool" where
  "truthy PNone = False"
| "truthy (PBool b) = b"
| "truthy (PInt i) = (i \<noteq> 0)"
| "truthy (PStr s) = (s \<noteq> [])"
| "truthy (PList xs) = (xs \<noteq> [])"
| "truthy (PDict kvs) = (kvs \<noteq> [])"

text \<open>\<open>len(x)\<close>: defined on strings, lists and dicts, a \<open>TypeError\<close> elsewhere.\<close>

fun py_len :: "pyval \<Rightarrow> error + nat" where
  "py_len (PStr s) = Inr (length s)"
| "py_len (PList xs) = Inr (length xs)"
| "py_len (PDict kvs) = Inr (length kvs)"
| "py_len _ = Inl TypeError"

text \<open>\<open>d.get(k, default)\<close>: a dict method, an \<open>AttributeError\<close> on anything else.\<close>

fun py_get :: "pyval \<Rightarrow> string \<Rightarrow> pyval \<Rightarrow> error + pyval" where
  "py_get (PDict kvs) k dflt = Inr (case map_of kvs k of Some v \<Rightarrow> v | None \<Rightarrow> dflt)"
| "py_get _ k dflt = Inl AttributeError"

text \<open>\<open>xs[:n]\<close>: a negative bound counts from the end.\<close>

definition py_slice_to :: "'a list \<Rightarrow> int \<Rightarrow> 'a list" where
  "py_slice_to xs n =
     (if 0 \<le> n then take (nat n) xs else take (nat (int (length xs) + n)) xs)"

text \<open>
  What the program does to its surroundings, in the order it does it: the messages
  handed to the progress callback, the calls to the collaborators, the runs of the
  external analyzer, and a marker for the aggregation step of an organization run.
\<close>

text \<open>A progress message is kept as the values its format string is filled with.\<close>

datatype progress_msg =
    MsgAnalyzingLocal string
  | MsgCloningRemote
  | MsgAnalyzingCloned string
  | MsgDiscoveringLocal string
  | MsgDiscoveringRemote string
  | MsgStartingParallel nat
  | MsgCloning nat
  | MsgRunning string
  | MsgComplete nat string

text \<open>
  Modelled from the spec: the clone service is not among the sources. Its results are
  the records \<open>{name, localPath, success}\<close> of \<open>cloneMany\<close>, which the code reads
  through the keys \<open>repo_name\<close>, \<open>local_path\<close> and \<open>success\<close>.
\<close>

record clone_result =
  repo_name :: string
  local_path :: string
  success :: bool

text \<open>
  A child of the organization directory as \<open>iterdir\<close> yields it: \<open>str(item)\<close>,
  \<open>item.name\<close>, \<open>item.is_dir()\<close> and what \<open>item.rglob("*.java")\<close> finds.
\<close>

record dir_entry =
  entry_path :: string
  entry_name :: string
  entry_is_dir :: bool
  entry_java_files :: "string list"

datatype repo_item = LocalDir dir_entry | Cloned clone_result

datatype event =
    Progress progress_msg
  | EvListOrgRepos string string int
  | EvCloneOrg "pyval list" string pyval
  | EvCloneSingle string
  | EvRunJar "string list"
  | EvUnlink string
  | EvCleanup "repo_item list"
  | EvAggregate

text \<open>
  A computation ends by returning a value, by raising, or not at all (a task that
  waits for a permit that never comes).
\<close>

datatype 'a res = Returns 'a | Raises error | Hangs

type_synonym 'a comp = "event list \<times> 'a res"

definition ret :: "'a \<Rightarrow> 'a comp" where
  "ret x = ([], Returns x)"

definition raise :: "error \<Rightarrow> 'a comp" where
  "raise e = ([], Raises e)"

definition emit :: "event \<Rightarrow> unit comp" where
  "emit ev = ([ev], Returns ())"

definition bind :: "'a comp \<Rightarrow> ('a \<Rightarrow> 'b comp) \<Rightarrow> 'b comp" where
  "bind m f =
     (case m of
        (t, Returns x) \<Rightarrow> (case f x of (t', r) \<Rightarrow> (t @ t', r))
      | (t, Raises e) \<Rightarrow> (t, Raises e)
      | (t, Hangs) \<Rightarrow> (t, Hangs))"

definition lift :: "error + 'a \<Rightarrow> 'a comp" where
  "lift r = (case r of Inl e \<Rightarrow> raise e | Inr x \<Rightarrow> ret x)"

text \<open>\<open>if progress_callback: progress_callback(msg)\<close>\<close>

definition notify :: "bool \<Rightarrow> progress_msg \<Rightarrow> unit comp" where
  "notify progress_callback msg = (if progress_callback then emit (Progress msg) else ret ())"

section \<open>Discovery\<close>

definition hidden :: "string \<Rightarrow> bool" where
  "hidden name = (case name of [] \<Rightarrow> False | c # _ \<Rightarrow> c = CHR ''.'')"

definition qualifies :: "dir_entry \<Rightarrow> bool" where
  "qualifies item \<longleftrightarrow>
     entry_is_dir item \<and> \<not> hidden (entry_name item) \<and> entry_java_files item \<noteq> []"

text \<open>
  The loop of \<open>_discover_local_repos\<close> over the entries that \<open>iterdir\<close> yields, with
  the list built so far. It returns the list and the entries it has not looked at.
\<close>

fun discover_loop :: "dir_entry list \<Rightarrow> int \<Rightarrow> dir_entry list \<Rightarrow> dir_entry list \<times> dir_entry list" where
  "discover_loop [] max_repos repo_dirs = (repo_dirs, [])"
| "discover_loop (item # rest) max_repos repo_dirs =
     (if entry_is_dir item \<and> \<not> hidden (entry_name item) then
        (if entry_java_files item \<noteq> [] then
           (let repo_dirs' = repo_dirs @ [item] in
            if max_repos \<le> int (length repo_dirs') then (repo_dirs', rest)
            else discover_loop rest max_repos repo_dirs')
         else discover_loop rest max_repos repo_dirs)
      else discover_loop rest max_repos repo_dirs)"

definition discover_local_repos :: "dir_entry list \<Rightarrow> int \<Rightarrow> dir_entry list" where
  "discover_local_repos entries max_repos = fst (discover_loop entries max_repos [])"

text \<open>\<open>scm_service.filter_java_repos(all_repos)[:max_repos]\<close>\<close>

definition java_repos_of :: "(pyval list \<Rightarrow> pyval list) \<Rightarrow> pyval list \<Rightarrow> int \<Rightarrow> pyval list" where
  "java_repos_of filter_java_repos all_repos max_repos =
     py_slice_to (filter_java_repos all_repos) max_repos"

section \<open>The base analyzer\<close>

text \<open>
  What one run of the analyzer JAR leaves behind: its return code and the state of the
  output path afterwards (no file, a file that \<open>json.load\<close> rejects, or the parsed JSON).
\<close>

record jar_run =
  returncode :: int
  jar_output :: "(error + pyval) option"

text \<open>
  The surroundings of the program: the file system, the analyzer process and the
  collaborators (SCM listing, clone service), which are not among the sources and are
  taken as parameters. A collaborator call returns or raises; \<open>list_org_repos\<close> returns
  the pair of the repositories and an optional error message.
\<close>

record world =
  path_exists :: "string \<Rightarrow> bool"
  path_is_dir :: "string \<Rightarrow> bool"
  path_resolve :: "string \<Rightarrow> error + string"
  path_name :: "string \<Rightarrow> string"
  iterdir :: "string \<Rightarrow> dir_entry list"
  run_jar :: "string list \<Rightarrow> error + jar_run"
  list_org_repos :: "string \<Rightarrow> string \<Rightarrow> int \<Rightarrow> error + (pyval list \<times> string option)"
  filter_java_repos :: "pyval list \<Rightarrow> pyval list"
  clone_organization_repositories :: "pyval list \<Rightarrow> string \<Rightarrow> pyval \<Rightarrow> error + clone_result list"
  clone_single_repository :: "string \<Rightarrow> error + string option"
  cleanup_cloned_repositories :: "repo_item list \<Rightarrow> error + unit"

record base_analyzer =
  jar_path :: string
  memory_overrides :: "(string \<times> string) list"
  default_memory :: string
  default_initial_memory :: string

text \<open>\<open>a or b or c\<close> on two optional strings and a default.\<close>

definition first_truthy :: "string option \<Rightarrow> string option \<Rightarrow> string \<Rightarrow> string" where
  "first_truthy a b c =
     (case a of
        Some x \<Rightarrow> (if x \<noteq> [] then x else (case b of Some y \<Rightarrow> (if y \<noteq> [] then y else c) | None \<Rightarrow> c))
      | None \<Rightarrow> (case b of Some y \<Rightarrow> (if y \<noteq> [] then y else c) | None \<Rightarrow> c))"

definition output_file :: "string \<Rightarrow> string \<Rightarrow> string" where
  "output_file target_jdk scope = ''temp_analysis_'' @ target_jdk @ ''_'' @ scope @ ''.json''"

definition output_path :: "string \<Rightarrow> string \<Rightarrow> string" where
  "output_path target_jdk scope = ''oss/outputs/'' @ output_file target_jdk scope"

definition jar_cmd :: "base_analyzer \<Rightarrow> string \<Rightarrow> string \<Rightarrow> string \<Rightarrow> string list" where
  "jar_cmd a directory_path target_jdk scope =
     (let memory = first_truthy (map_of (memory_overrides a) ''memory'')
                     (map_of (memory_overrides a) ''heap_size'') (default_memory a);
          initial_memory = first_truthy (map_of (memory_overrides a) ''initial_memory'')
                     (map_of (memory_overrides a) ''initial_heap'') (default_initial_memory a)
      in [''java'', ''-Xmx'' @ memory, ''-Xms'' @ initial_memory, ''-Xss4m'',
          ''-jar'', jar_path a, ''-d'', directory_path, ''-t'', target_jdk,
          ''--scope'', scope, ''-o'', output_file target_jdk scope])"

text \<open>
  \<open>analyze_directory\<close>: the raw JSON of the analyzer, or \<open>None\<close> when the directory is
  missing, the process cannot be started or exits with a non-zero code, or the output
  file is missing or unreadable. Every exception is caught inside.
\<close>

definition analyze_directory :: "world \<Rightarrow> base_analyzer \<Rightarrow> string \<Rightarrow> string \<Rightarrow> string \<Rightarrow> pyval comp" where
  "analyze_directory w a directory_path target_jdk scope =
     (if \<not> path_exists w directory_path \<or> \<not> path_is_dir w directory_path then ret PNone
      else
        bind (emit (EvRunJar (jar_cmd a directory_path target_jdk scope))) (\<lambda>_.
          case run_jar w (jar_cmd a directory_path target_jdk scope) of
            Inl e \<Rightarrow> ret PNone
          | Inr process \<Rightarrow>
              if returncode process = 0 then
                (case jar_output process of
                   Some (Inr result) \<Rightarrow>
                     bind (emit (EvUnlink (output_path target_jdk scope))) (\<lambda>_. ret result)
                 | Some (Inl e) \<Rightarrow> ret PNone
                 | None \<Rightarrow> ret PNone)
              else ret PNone))"

section \<open>The analysis service\<close>

record analysis_service =
  analyzer :: base_analyzer
  max_concurrent_repos :: pyval


text \<open>
  \<open>asyncio.Semaphore(value)\<close>: the number of permits; a negative value is a
  \<open>ValueError\<close>, a value that does not compare with \<open>0\<close> a \<open>TypeError\<close>.
\<close>

fun semaphore_new :: "pyval \<Rightarrow> error + nat" where
  "semaphore_new (PInt n) =
     (if n < 0 then Inl (ValueError ''Semaphore initial value must be >= 0'') else Inr (nat n))"
| "semaphore_new (PBool b) = Inr (if b then 1 else 0)"
| "semaphore_new _ = Inl TypeError"

record outcome =
  repository :: string
  findings :: pyval
  total_issues :: nat

definition base_repo_analyzer ::
  "world \<Rightarrow> analysis_service \<Rightarrow> string \<Rightarrow> string \<Rightarrow> string \<Rightarrow> string \<Rightarrow> bool \<Rightarrow> outcome comp" where
  "base_repo_analyzer w svc lpath rname to_version scope progress_callback =
     bind (notify progress_callback (MsgRunning rname)) (\<lambda>_.
     bind (analyze_directory w (analyzer svc) lpath to_version scope) (\<lambda>raw_result.
       if \<not> truthy raw_result then raise (Exception (''JAR analysis failed for '' @ rname))
       else
         bind (lift (case raw_result of
                       PList xs \<Rightarrow> Inr raw_result
                     | _ \<Rightarrow> py_get raw_result ''findings'' (PList []))) (\<lambda>fs.
         bind (lift (py_len fs)) (\<lambda>n.
         bind (notify progress_callback (MsgComplete n rname)) (\<lambda>_.
           ret \<lparr>repository = rname, findings = fs, total_issues = n\<rparr>)))))"

text \<open>\<open>try: ... except Exception: return None\<close>\<close>

definition catch_none :: "'a comp \<Rightarrow> 'a option comp" where
  "catch_none m =
     (case m of
        (t, Returns x) \<Rightarrow> (t, Returns (Some x))
      | (t, Raises e) \<Rightarrow> (t, Returns None)
      | (t, Hangs) \<Rightarrow> (t, Hangs))"

text \<open>
  \<open>async with semaphore\<close>, seen from one task: with an empty pool the permit never
  comes; otherwise the task gets one in the end and runs its body (the interleaving of
  the tasks is modelled below).
\<close>

definition with_semaphore :: "nat \<Rightarrow> 'a comp \<Rightarrow> 'a comp" where
  "with_semaphore pool body = (if pool = 0 then ([], Hangs) else body)"

text \<open>The body of \<open>analyze_single_item\<close> inside the \<open>async with\<close>.\<close>

definition analyze_item_body ::
  "world \<Rightarrow> analysis_service \<Rightarrow> string \<Rightarrow> string \<Rightarrow> bool \<Rightarrow> bool \<Rightarrow> repo_item \<Rightarrow> outcome option comp" where
  "analyze_item_body w svc to_version scope progress_callback is_local item =
     catch_none
       (if is_local then
          (case item of
             LocalDir d \<Rightarrow>
               base_repo_analyzer w svc (entry_path d) (entry_name d) to_version scope progress_callback
           | Cloned c \<Rightarrow> raise AttributeError)
        else
          (case item of
             Cloned c \<Rightarrow>
               base_repo_analyzer w svc (local_path c) (repo_name c) to_version scope progress_callback
           | LocalDir d \<Rightarrow> raise TypeError))"

definition analyze_single_item ::
  "world \<Rightarrow> analysis_service \<Rightarrow> nat \<Rightarrow> string \<Rightarrow> string \<Rightarrow> bool \<Rightarrow> bool \<Rightarrow> repo_item \<Rightarrow> outcome option comp" where
  "analyze_single_item w svc pool to_version scope progress_callback is_local item =
     with_semaphore pool (analyze_item_body w svc to_version scope progress_callback is_local item)"

text \<open>
  \<open>asyncio.gather(*tasks, return_exceptions=True)\<close>: one result per task, in the order
  of the tasks; a task that raises contributes its exception as its result. The events of
  the tasks are listed task by task, which is one of the orders they can happen in.
\<close>

fun gather :: "'a comp list \<Rightarrow> (error + 'a) list comp" where
  "gather [] = ([], Returns [])"
| "gather (m # ms) =
     (case m of (t, r) \<Rightarrow>
        (case gather ms of (t', rs) \<Rightarrow>
           (t @ t',
            case r of
              Hangs \<Rightarrow> Hangs
            | Returns x \<Rightarrow> (case rs of Returns xs \<Rightarrow> Returns (Inr x # xs) | Raises e \<Rightarrow> Raises e | Hangs \<Rightarrow> Hangs)
            | Raises e \<Rightarrow> (case rs of Returns xs \<Rightarrow> Returns (Inl e # xs) | Raises e' \<Rightarrow> Raises e' | Hangs \<Rightarrow> Hangs))))"

text \<open>The loop that keeps the successful results.\<close>

fun filter_successful :: "(error + outcome option) list \<Rightarrow> outcome list" where
  "filter_successful [] = []"
| "filter_successful (Inl e # results) = filter_successful results"
| "filter_successful (Inr None # results) = filter_successful results"
| "filter_successful (Inr (Some r) # results) = r # filter_successful results"

definition parallel_repo_analysis ::
  "world \<Rightarrow> analysis_service \<Rightarrow> repo_item list \<Rightarrow> string \<Rightarrow> string \<Rightarrow> bool \<Rightarrow> bool \<Rightarrow> outcome list comp" where
  "parallel_repo_analysis w svc repo_items to_version scope progress_callback is_local =
     bind (lift (semaphore_new (max_concurrent_repos svc))) (\<lambda>pool.
     bind (gather (map (analyze_single_item w svc pool to_version scope progress_callback is_local)
                     repo_items)) (\<lambda>results.
       ret (filter_successful results)))"

section \<open>Organization and single-repository runs\<close>

definition opt_truthy :: "string option \<Rightarrow> bool" where
  "opt_truthy x = (case x of None \<Rightarrow> False | Some s \<Rightarrow> s \<noteq> [])"

definition discover_and_clone_remote_repos ::
  "world \<Rightarrow> analysis_service \<Rightarrow> string \<Rightarrow> string \<Rightarrow> int \<Rightarrow> bool \<Rightarrow> clone_result list comp" where
  "discover_and_clone_remote_repos w svc org_name provider max_repos progress_callback =
     bind (emit (EvListOrgRepos org_name provider max_repos)) (\<lambda>_.
     bind (lift (list_org_repos w org_name provider max_repos)) (\<lambda>(all_repos, err).
       if opt_truthy err \<or> all_repos = [] then
         raise (Exception (''Failed to discover repositories: ''
                  @ (case err of None \<Rightarrow> ''None'' | Some e \<Rightarrow> e)))
       else if java_repos_of (filter_java_repos w) all_repos max_repos = [] then
         raise (Exception (''No Java repositories found in '' @ org_name))
       else
         bind (notify progress_callback
                 (MsgCloning (length (java_repos_of (filter_java_repos w) all_repos max_repos)))) (\<lambda>_.
         bind (emit (EvCloneOrg (java_repos_of (filter_java_repos w) all_repos max_repos)
                       org_name (max_concurrent_repos svc))) (\<lambda>_.
         bind (lift (clone_organization_repositories w
                       (java_repos_of (filter_java_repos w) all_repos max_repos)
                       org_name (max_concurrent_repos svc))) (\<lambda>clone_results.
           ret (filter success clone_results))))))"

text \<open>
  The first part of \<open>_analyze_organization\<close>, up to the test of \<open>repo_items\<close>: whether
  the organization is a local directory, the discovered items and \<open>cleanup_paths\<close>.
\<close>

definition org_discovery ::
  "world \<Rightarrow> analysis_service \<Rightarrow> string \<Rightarrow> int \<Rightarrow> bool \<Rightarrow> string \<Rightarrow> bool
     \<Rightarrow> (bool \<times> repo_item list \<times> string list option) comp" where
  "org_discovery w svc org_name max_repos keep_clones provider progress_callback =
     (if path_exists w org_name \<and> path_is_dir w org_name then
        bind (notify progress_callback (MsgDiscoveringLocal org_name)) (\<lambda>_.
          ret (True, map LocalDir (discover_local_repos (iterdir w org_name) max_repos), None))
      else
        bind (notify progress_callback (MsgDiscoveringRemote org_name)) (\<lambda>_.
        bind (discover_and_clone_remote_repos w svc org_name provider max_repos progress_callback)
          (\<lambda>items.
            ret (False, map Cloned items,
                 if \<not> keep_clones then None
                 else Some (map local_path (filter success items))))))"

definition cleanup_cloned_repos :: "world \<Rightarrow> repo_item list \<Rightarrow> unit comp" where
  "cleanup_cloned_repos w clone_results =
     bind (emit (EvCleanup clone_results)) (\<lambda>_. lift (cleanup_cloned_repositories w clone_results))"

text \<open>\<open>sum(len(r.get('findings', [])) for r in analysis_results)\<close>\<close>

fun sum_findings :: "outcome list \<Rightarrow> error + nat" where
  "sum_findings [] = Inr 0"
| "sum_findings (r # rs) =
     (case py_len (findings r) of
        Inl e \<Rightarrow> Inl e
      | Inr n \<Rightarrow> (case sum_findings rs of Inl e \<Rightarrow> Inl e | Inr m \<Rightarrow> Inr (n + m)))"

text \<open>
  The result of an organization run. Its \<open>total_issues\<close> entry is the field
  \<open>org_total_issues\<close>, and its \<open>type\<close> entry the field \<open>org_type\<close>.
\<close>

record org_result =
  org_type :: string
  organization :: string
  repositories :: "outcome list"
  org_total_issues :: nat
  repos_analyzed :: nat
  cleanup_paths :: "string list option"

text \<open>
  The second part of \<open>_analyze_organization\<close>. The event \<open>EvAggregate\<close> marks the point
  where the aggregation (the sum and the result dict) starts.
\<close>

definition org_analyze_items ::
  "world \<Rightarrow> analysis_service \<Rightarrow> string \<Rightarrow> string \<Rightarrow> string \<Rightarrow> bool \<Rightarrow> bool
     \<Rightarrow> bool \<Rightarrow> repo_item list \<Rightarrow> string list option \<Rightarrow> org_result comp" where
  "org_analyze_items w svc org_name to_version scope keep_clones progress_callback
       is_local repo_items cpaths =
     (if repo_items = [] then raise (Exception (''No Java repositories found in '' @ org_name))
      else
        bind (notify progress_callback (MsgStartingParallel (length repo_items))) (\<lambda>_.
        bind (parallel_repo_analysis w svc repo_items to_version scope progress_callback is_local)
          (\<lambda>analysis_results.
        bind (if \<not> is_local \<and> \<not> keep_clones then cleanup_cloned_repos w repo_items else ret ()) (\<lambda>_.
        bind (emit EvAggregate) (\<lambda>_.
        bind (lift (sum_findings analysis_results)) (\<lambda>total.
          ret \<lparr>org_type = ''organization'', organization = org_name,
               repositories = analysis_results, org_total_issues = total,
               repos_analyzed = length analysis_results, cleanup_paths = cpaths\<rparr>))))))"

definition analyze_organization ::
  "world \<Rightarrow> analysis_service \<Rightarrow> string \<Rightarrow> string \<Rightarrow> string \<Rightarrow> int \<Rightarrow> bool \<Rightarrow> string \<Rightarrow> bool
     \<Rightarrow> org_result comp" where
  "analyze_organization w svc org_name to_version scope max_repos keep_clones provider
       progress_callback =
     bind (org_discovery w svc org_name max_repos keep_clones provider progress_callback)
       (\<lambda>(is_local, repo_items, cpaths).
          org_analyze_items w svc org_name to_version scope keep_clones progress_callback
            is_local repo_items cpaths)"



text \<open>\<open>s.split("/")[-1]\<close> and \<open>s.replace(".git", "")\<close>\<close>

definition last_component :: "string \<Rightarrow> string" where
  "last_component s = rev (takeWhile (\<lambda>c. c \<noteq> CHR ''/'') (rev s))"







section \<open>The permit pool and the interleaving of the tasks\<close>

text \<open>
  A task of \<open>_parallel_repo_analysis\<close> waits for a permit, holds one while it runs the
  base analyzer, and is finished with its result once it has given the permit back.
\<close>

datatype task_state = Waiting | InFlight | Finished "outcome option"

record sched =
  permits :: nat
  tasks :: "task_state list"

datatype action = Acquire nat | Complete nat

definition sched_init :: "nat \<Rightarrow> nat \<Rightarrow> sched" where
  "sched_init pool n = \<lparr>permits = pool, tasks = replicate n Waiting\<rparr>"

text \<open>
  One step of the event loop: task \<open>i\<close> enters the \<open>async with\<close> when a permit is free,
  or leaves it with the result of its body, on success and on failure alike. A step
  that is not possible in the state is \<open>None\<close>.
\<close>

definition sched_step :: "(repo_item \<Rightarrow> outcome option) \<Rightarrow> repo_item list \<Rightarrow> action \<Rightarrow> sched \<Rightarrow> sched option" where
  "sched_step body repo_items a s =
     (case a of
        Acquire i \<Rightarrow>
          if i < length (tasks s) \<and> tasks s ! i = Waiting \<and> 0 < permits s
          then Some \<lparr>permits = permits s - 1, tasks = (tasks s)[i := InFlight]\<rparr>
          else None
      | Complete i \<Rightarrow>
          if i < length (tasks s) \<and> i < length repo_items \<and> tasks s ! i = InFlight
          then Some \<lparr>permits = permits s + 1,
                     tasks = (tasks s)[i := Finished (body (repo_items ! i))]\<rparr>
          else None)"

fun sched_run :: "(repo_item \<Rightarrow> outcome option) \<Rightarrow> repo_item list \<Rightarrow> action list \<Rightarrow> sched \<Rightarrow> sched option" where
  "sched_run body repo_items [] s = Some s"
| "sched_run body repo_items (a # as) s =
     (case sched_step body repo_items a s of
        None \<Rightarrow> None
      | Some s' \<Rightarrow> sched_run body repo_items as s')"





text \<open>The result of the body of a task in the surroundings \<open>w\<close>.\<close>

definition item_result ::
  "world \<Rightarrow> analysis_service \<Rightarrow> string \<Rightarrow> string \<Rightarrow> bool \<Rightarrow> bool \<Rightarrow> repo_item \<Rightarrow> outcome option" where
  "item_result w svc to_version scope progress_callback is_local item =
     (case snd (analyze_item_body w svc to_version scope progress_callback is_local item) of
        Returns r \<Rightarrow> r
      | _ \<Rightarrow> None)"

section \<open>Notions used to state the properties\<close>


definition item_name :: "repo_item \<Rightarrow> string" where
  "item_name item = (case item of LocalDir d \<Rightarrow> entry_name d | Cloned c \<Rightarrow> repo_name c)"

definition successes ::
  "world \<Rightarrow> analysis_service \<Rightarrow> string \<Rightarrow> string \<Rightarrow> bool \<Rightarrow> bool \<Rightarrow> repo_item list \<Rightarrow> repo_item list" where
  "successes w svc tv sc cb il items = filter (\<lambda>it. item_result w svc tv sc cb il it \<noteq> None) items"

definition analysis_trace ::
  "world \<Rightarrow> analysis_service \<Rightarrow> string \<Rightarrow> string \<Rightarrow> bool \<Rightarrow> bool \<Rightarrow> repo_item list \<Rightarrow> event list" where
  "analysis_trace w svc tv sc cb il items =
     concat (map (\<lambda>it. fst (analyze_item_body w svc tv sc cb il it)) items)"

definition outcomes ::
  "world \<Rightarrow> analysis_service \<Rightarrow> string \<Rightarrow> string \<Rightarrow> bool \<Rightarrow> bool \<Rightarrow> repo_item list \<Rightarrow> outcome list" where
  "outcomes w svc tv sc cb il items =
     map (\<lambda>it. the (item_result w svc tv sc cb il it)) (successes w svc tv sc cb il items)"

definition org_result_of :: "string \<Rightarrow> outcome list \<Rightarrow> string list option \<Rightarrow> org_result" where
  "org_result_of org rs cp =
     \<lparr>org_type = ''organization'', organization = org, repositories = rs,
      org_total_issues = sum_list (map total_issues rs),
      repos_analyzed = length rs, cleanup_paths = cp\<rparr>"

fun is_discovery_event :: "event \<Rightarrow> bool" where
  "is_discovery_event (Progress m) = True"
| "is_discovery_event (EvListOrgRepos org provider limit) = True"
| "is_discovery_event (EvCloneOrg repos org c) = True"
| "is_discovery_event _ = False"

fun is_analysis_event :: "event \<Rightarrow> bool" where
  "is_analysis_event (Progress m) = True"
| "is_analysis_event (EvRunJar cmd) = True"
| "is_analysis_event (EvUnlink p) = True"
| "is_analysis_event _ = False"



text \<open>
  The order that the specification asks of an organization run, read on its events: no
  call of the cleanup comes before the aggregation has taken place.
\<close>

fun cleanup_after_aggregate :: "event list \<Rightarrow> bool" where
  "cleanup_after_aggregate [] = True"
| "cleanup_after_aggregate (EvAggregate # t) = True"
| "cleanup_after_aggregate (EvCleanup clone_results # t) = False"
| "cleanup_after_aggregate (ev # t) = cleanup_after_aggregate t"

section \<open>Example inputs\<close>

definition example_entries :: "dir_entry list" where
  "example_entries =
     [\<lparr>entry_path = ''org/.git'', entry_name = ''.git'', entry_is_dir = True,
        entry_java_files = [''org/.git/A.java'']\<rparr>,
      \<lparr>entry_path = ''org/a'', entry_name = ''a'', entry_is_dir = True,
        entry_java_files = [''org/a/A.java'']\<rparr>,
      \<lparr>entry_path = ''org/README'', entry_name = ''README'', entry_is_dir = False,
        entry_java_files = []\<rparr>,
      \<lparr>entry_path = ''org/docs'', entry_name = ''docs'', entry_is_dir = True,
        entry_java_files = []\<rparr>,
      \<lparr>entry_path = ''org/b'', entry_name = ''b'', entry_is_dir = True,
        entry_java_files = [''org/b/src/B.java'']\<rparr>,
      \<lparr>entry_path = ''org/c'', entry_name = ''c'', entry_is_dir = True,
        entry_java_files = [''org/c/C.java'']\<rparr>]"

definition org_entries :: "dir_entry list" where
  "org_entries =
     [\<lparr>entry_path = ''org/a'', entry_name = ''a'', entry_is_dir = True,
        entry_java_files = [''org/a/A.java'']\<rparr>,
      \<lparr>entry_path = ''org/b'', entry_name = ''b'', entry_is_dir = True,
        entry_java_files = [''org/b/B.java'']\<rparr>,
      \<lparr>entry_path = ''org/c'', entry_name = ''c'', entry_is_dir = True,
        entry_java_files = [''org/c/C.java'']\<rparr>,
      \<lparr>entry_path = ''org/d'', entry_name = ''d'', entry_is_dir = True,
        entry_java_files = [''org/d/D.java'']\<rparr>]"

definition example_clones :: "clone_result list" where
  "example_clones =
     [\<lparr>repo_name = ''r1'', local_path = ''clones/r1'', success = True\<rparr>,
      \<lparr>repo_name = ''r2'', local_path = ''clones/r2'', success = False\<rparr>,
      \<lparr>repo_name = ''r3'', local_path = ''clones/r3'', success = True\<rparr>,
      \<lparr>repo_name = ''r4'', local_path = ''clones/r4'', success = False\<rparr>,
      \<lparr>repo_name = ''r5'', local_path = ''clones/r5'', success = True\<rparr>]"

definition example_world :: world where
  "example_world =
     \<lparr>path_exists = (\<lambda>p. p \<in> set [''org'', ''org/a'', ''org/b'', ''org/c'', ''org/d'', ''empty'',
                                    ''clones/r1'', ''clones/r3'', ''clones/r5'']),
      path_is_dir = (\<lambda>p. p \<in> set [''org'', ''org/a'', ''org/b'', ''org/c'', ''org/d'', ''empty'',
                                    ''clones/r1'', ''clones/r3'', ''clones/r5'']),
      path_resolve = (\<lambda>p. Inr p),
      path_name = last_component,
      iterdir = (\<lambda>p. if p = ''org'' then org_entries else []),
      run_jar = (\<lambda>cmd. if ''org/c'' \<in> set cmd then Inr \<lparr>returncode = 1, jar_output = None\<rparr>
                        else Inr \<lparr>returncode = 0,
                                  jar_output = Some (Inr (PDict [(''findings'', PList [PStr ''f1'', PStr ''f2''])]))\<rparr>),
      list_org_repos = (\<lambda>org provider limit.
                          if org = ''acme''
                          then Inr ([PStr ''r1'', PStr ''r2'', PStr ''r3'', PStr ''r4'', PStr ''r5''], None)
                          else Inr ([], Some ''not found'')),
      filter_java_repos = (\<lambda>repos. repos),
      clone_organization_repositories = (\<lambda>repos org c. Inr example_clones),
      clone_single_repository = (\<lambda>url. Inr None),
      cleanup_cloned_repositories = (\<lambda>items. Inr ())\<rparr>"

definition example_service :: analysis_service where
  "example_service =
     \<lparr>analyzer = \<lparr>jar_path = ''gs-analyzer.jar'', memory_overrides = [],
                   default_memory = ''2g'', default_initial_memory = ''512m''\<rparr>,
      max_concurrent_repos = PInt 2\<rparr>"


text \<open>What the example runs produce.\<close>

definition example_outcome :: "string \<Rightarrow> outcome" where
  "example_outcome name =
     \<lparr>repository = name, findings = PList [PStr ''f1'', PStr ''f2''], total_issues = 2\<rparr>"

definition example_jar_cmd :: "string \<Rightarrow> string list" where
  "example_jar_cmd dir =
     [''java'', ''-Xmx2g'', ''-Xms512m'', ''-Xss4m'', ''-jar'', ''gs-analyzer.jar'', ''-d'', dir,
      ''-t'', ''21'', ''--scope'', ''all'', ''-o'', ''temp_analysis_21_all.json'']"

definition local_items :: "repo_item list" where
  "local_items = map LocalDir org_entries"

definition local_trace :: "event list" where
  "local_trace =
     [EvRunJar (example_jar_cmd ''org/a''), EvUnlink ''oss/outputs/temp_analysis_21_all.json'',
      EvRunJar (example_jar_cmd ''org/b''), EvUnlink ''oss/outputs/temp_analysis_21_all.json'',
      EvRunJar (example_jar_cmd ''org/c''),
      EvRunJar (example_jar_cmd ''org/d''), EvUnlink ''oss/outputs/temp_analysis_21_all.json'',
      EvAggregate]"

definition local_result :: org_result where
  "local_result =
     \<lparr>org_type = ''organization'', organization = ''org'',
      repositories = [example_outcome ''a'', example_outcome ''b'', example_outcome ''d''],
      org_total_issues = 6, repos_analyzed = 3, cleanup_paths = None\<rparr>"

definition remote_items :: "repo_item list" where
  "remote_items = map Cloned (filter success example_clones)"

definition remote_discovery_trace :: "event list" where
  "remote_discovery_trace =
     [EvListOrgRepos ''acme'' ''github'' 50,
      EvCloneOrg [PStr ''r1'', PStr ''r2'', PStr ''r3'', PStr ''r4'', PStr ''r5''] ''acme'' (PInt 2)]"

definition remote_analysis_trace :: "event list" where
  "remote_analysis_trace =
     [EvRunJar (example_jar_cmd ''clones/r1''), EvUnlink ''oss/outputs/temp_analysis_21_all.json'',
      EvRunJar (example_jar_cmd ''clones/r3''), EvUnlink ''oss/outputs/temp_analysis_21_all.json'',
      EvRunJar (example_jar_cmd ''clones/r5''), EvUnlink ''oss/outputs/temp_analysis_21_all.json'']"

definition remote_result :: org_result where
  "remote_result =
     \<lparr>org_type = ''organization'', organization = ''acme'',
      repositories = [example_outcome ''r1'', example_outcome ''r3'', example_outcome ''r5''],
      org_total_issues = 6, repos_analyzed = 3, cleanup_paths = None\<rparr>"

section \<open>Properties of computations\<close>

lemma bind_ret [simp]: "bind (ret x) f = f x"
  by (cases "f x") (simp add: bind_def ret_def)

lemma bind_raise [simp]: "bind (raise e) f = raise e"
  by (simp add: bind_def raise_def)

lemma bind_emit: "bind (emit ev) f = (ev # fst (f ()), snd (f ()))"
  by (cases "f ()") (simp add: bind_def emit_def)

lemma bind_Returns: "bind (t, Returns x) f = (t @ fst (f x), snd (f x))"
  by (cases "f x") (simp add: bind_def)

lemma bind_Raises: "bind (t, Raises e) f = (t, Raises e)"
  by (simp add: bind_def)

lemma bind_Hangs: "bind (t, Hangs) f = (t, Hangs)"
  by (simp add: bind_def)

lemma snd_bind: "snd (bind m f) = (case snd m of Returns x \<Rightarrow> snd (f x) | Raises e \<Rightarrow> Raises e | Hangs \<Rightarrow> Hangs)"
  by (cases m; cases "snd m") (auto simp: bind_def split: prod.splits)

lemma fst_bind: "fst (bind m f) = (case snd m of Returns x \<Rightarrow> fst m @ fst (f x) | _ \<Rightarrow> fst m)"
  by (cases m; cases "snd m") (auto simp: bind_def split: prod.splits)

lemma snd_notify [simp]: "snd (notify cb msg) = Returns ()"
  by (simp add: notify_def emit_def ret_def)

lemma snd_emit [simp]: "snd (emit ev) = Returns ()"
  by (simp add: emit_def)

lemma snd_ret [simp]: "snd (ret x) = Returns x"
  by (simp add: ret_def)

lemma snd_raise [simp]: "snd (raise e) = Raises e"
  by (simp add: raise_def)

lemma snd_lift: "snd (lift r) = (case r of Inl e \<Rightarrow> Raises e | Inr x \<Rightarrow> Returns x)"
  by (cases r) (simp_all add: lift_def)

lemma analyze_directory_returns: "\<exists>v. snd (analyze_directory w a d j s) = Returns v"
  by (auto simp: analyze_directory_def snd_bind split: sum.splits option.splits)

lemma base_repo_analyzer_no_hang: "snd (base_repo_analyzer w svc lp rn tv sc cb) \<noteq> Hangs"
proof -
  obtain v where v: "snd (analyze_directory w (analyzer svc) lp tv sc) = Returns v"
    using analyze_directory_returns by blast
  show ?thesis
    by (simp add: base_repo_analyzer_def snd_bind v snd_lift split: sum.splits pyval.splits)
qed

lemma snd_catch_none: "snd (catch_none m) = (case snd m of Returns x \<Rightarrow> Returns (Some x) | Raises e \<Rightarrow> Returns None | Hangs \<Rightarrow> Hangs)"
  by (cases m; cases "snd m") (auto simp: catch_none_def)

lemma fst_catch_none [simp]: "fst (catch_none m) = fst m"
  by (cases m; cases "snd m") (auto simp: catch_none_def)

lemma analyze_item_body_returns:
  "snd (analyze_item_body w svc tv sc cb il item) = Returns (item_result w svc tv sc cb il item)"
proof -
  have "snd (analyze_item_body w svc tv sc cb il item) \<noteq> Hangs"
    using base_repo_analyzer_no_hang
    by (auto simp: analyze_item_body_def snd_catch_none split: res.splits repo_item.splits)
  moreover have "\<And>e. snd (analyze_item_body w svc tv sc cb il item) \<noteq> Raises e"
    by (auto simp: analyze_item_body_def snd_catch_none split: res.splits repo_item.splits)
  ultimately show ?thesis
    by (cases "snd (analyze_item_body w svc tv sc cb il item)") (auto simp: item_result_def)
qed

lemma analyze_single_item_eq:
  "0 < pool \<Longrightarrow> analyze_single_item w svc pool tv sc cb il item
     = (fst (analyze_item_body w svc tv sc cb il item), Returns (item_result w svc tv sc cb il item))"
  using analyze_item_body_returns [of w svc tv sc cb il item]
  by (cases "analyze_item_body w svc tv sc cb il item") (simp add: analyze_single_item_def with_semaphore_def)

lemma gather_items:
  "0 < pool \<Longrightarrow>
   gather (map (analyze_single_item w svc pool tv sc cb il) items)
     = (concat (map (\<lambda>it. fst (analyze_item_body w svc tv sc cb il it)) items),
        Returns (map (\<lambda>it. Inr (item_result w svc tv sc cb il it)) items))"
  by (induction items) (simp_all add: analyze_single_item_eq)

lemma filter_successful_map:
  "filter_successful (map (\<lambda>it. Inr (f it)) items) = map (\<lambda>it. the (f it)) (filter (\<lambda>it. f it \<noteq> None) items)"
  by (induction items) auto

lemma parallel_repo_analysis_eq:
  assumes "semaphore_new (max_concurrent_repos svc) = Inr pool" "0 < pool"
  shows "parallel_repo_analysis w svc items tv sc cb il
     = (concat (map (\<lambda>it. fst (analyze_item_body w svc tv sc cb il it)) items),
        Returns (map (\<lambda>it. the (item_result w svc tv sc cb il it))
                   (filter (\<lambda>it. item_result w svc tv sc cb il it \<noteq> None) items)))"
  using assms
  by (simp add: parallel_repo_analysis_def lift_def gather_items bind_Returns filter_successful_map ret_def)

lemma parallel_repo_analysis_hangs:
  assumes "semaphore_new (max_concurrent_repos svc) = Inr 0" "items \<noteq> []"
  shows "parallel_repo_analysis w svc items tv sc cb il = ([], Hangs)"
proof -
  have "fst (gather (map (analyze_single_item w svc 0 tv sc cb il) items)) = []
      \<and> (items \<noteq> [] \<longrightarrow> snd (gather (map (analyze_single_item w svc 0 tv sc cb il) items)) = Hangs)"
    by (induction items) (auto simp: analyze_single_item_def with_semaphore_def split: prod.splits res.splits)
  then have "gather (map (analyze_single_item w svc 0 tv sc cb il) items) = ([], Hangs)"
    using assms(2) by (cases "gather (map (analyze_single_item w svc 0 tv sc cb il) items)") simp
  then show ?thesis using assms(1)
    by (simp add: parallel_repo_analysis_def lift_def bind_Hangs)
qed








lemma base_repo_analyzer_Returns:
  assumes "snd (base_repo_analyzer w svc lp rn tv sc cb) = Returns r"
  shows "repository r = rn \<and> py_len (findings r) = Inr (total_issues r)"
proof -
  obtain v where v: "snd (analyze_directory w (analyzer svc) lp tv sc) = Returns v"
    using analyze_directory_returns by blast
  show ?thesis
    using assms
    by (auto simp: base_repo_analyzer_def snd_bind v snd_lift split: sum.splits if_splits pyval.splits)
qed

lemma item_result_Some:
  assumes "item_result w svc tv sc cb il item = Some r"
  shows "repository r = item_name item \<and> py_len (findings r) = Inr (total_issues r)"
proof -
  have "snd (analyze_item_body w svc tv sc cb il item) = Returns (Some r)"
    using assms analyze_item_body_returns [of w svc tv sc cb il item] by simp
  then show ?thesis
    by (auto simp: analyze_item_body_def snd_catch_none item_name_def
             split: if_splits repo_item.splits res.splits dest: base_repo_analyzer_Returns)
qed

lemma sum_findings_ok:
  "\<forall>r \<in> set rs. py_len (findings r) = Inr (total_issues r) \<Longrightarrow>
   sum_findings rs = Inr (sum_list (map total_issues rs))"
  by (induction rs) auto

lemma successes_findings:
  "\<forall>r \<in> set (map (\<lambda>it. the (item_result w svc tv sc cb il it)) (successes w svc tv sc cb il items)).
     py_len (findings r) = Inr (total_issues r)"
  by (auto simp: successes_def dest: item_result_Some)

lemma successes_names:
  "map repository (map (\<lambda>it. the (item_result w svc tv sc cb il it)) (successes w svc tv sc cb il items))
     = map item_name (successes w svc tv sc cb il items)"
  by (auto simp: successes_def dest: item_result_Some)

lemma parallel_repo_analysis_succ:
  assumes "semaphore_new (max_concurrent_repos svc) = Inr pool" "0 < pool"
  shows "parallel_repo_analysis w svc items tv sc cb il
     = (analysis_trace w svc tv sc cb il items, Returns (outcomes w svc tv sc cb il items))"
  using parallel_repo_analysis_eq [OF assms] by (simp add: analysis_trace_def successes_def outcomes_def)

lemma outcomes_findings:
  "\<forall>r \<in> set (outcomes w svc tv sc cb il items). py_len (findings r) = Inr (total_issues r)"
  using successes_findings [of w svc tv sc cb il items] by (simp add: outcomes_def)

lemma org_tail:
  assumes "\<forall>r \<in> set rs. py_len (findings r) = Inr (total_issues r)"
  shows "bind (if \<not> il \<and> \<not> kc then cleanup_cloned_repos w items else ret ()) (\<lambda>_.
        bind (emit EvAggregate) (\<lambda>_.
        bind (lift (sum_findings rs)) (\<lambda>total.
          ret \<lparr>org_type = ''organization'', organization = org,
               repositories = rs, org_total_issues = total,
               repos_analyzed = length rs, cleanup_paths = cp\<rparr>)))
     = (if \<not> il \<and> \<not> kc then
          (case cleanup_cloned_repositories w items of
             Inl e \<Rightarrow> ([EvCleanup items], Raises e)
           | Inr u \<Rightarrow> ([EvCleanup items, EvAggregate], Returns (org_result_of org rs cp)))
        else ([EvAggregate], Returns (org_result_of org rs cp)))"
proof -
  have agg: "bind (emit EvAggregate) (\<lambda>_.
        bind (lift (sum_findings rs)) (\<lambda>total.
          ret \<lparr>org_type = ''organization'', organization = org,
               repositories = rs, org_total_issues = total,
               repos_analyzed = length rs, cleanup_paths = cp\<rparr>))
      = ([EvAggregate], Returns (org_result_of org rs cp))"
    unfolding sum_findings_ok [OF assms]
    by (simp add: bind_emit bind_Returns lift_def ret_def org_result_of_def)
  show ?thesis
    unfolding agg
    by (auto simp: cleanup_cloned_repos_def bind_emit bind_Returns bind_Raises lift_def ret_def raise_def
             split: sum.splits)
qed

lemma org_analyze_items_eq:
  assumes "semaphore_new (max_concurrent_repos svc) = Inr pool" "0 < pool" "items \<noteq> []"
  shows "org_analyze_items w svc org tv sc kc cb il items cp =
     (if \<not> il \<and> \<not> kc then
        (case cleanup_cloned_repositories w items of
           Inl e \<Rightarrow> (fst (notify cb (MsgStartingParallel (length items)))
                      @ analysis_trace w svc tv sc cb il items @ [EvCleanup items], Raises e)
         | Inr u \<Rightarrow> (fst (notify cb (MsgStartingParallel (length items)))
                      @ analysis_trace w svc tv sc cb il items @ [EvCleanup items, EvAggregate],
                     Returns (org_result_of org (outcomes w svc tv sc cb il items) cp)))
      else (fst (notify cb (MsgStartingParallel (length items)))
              @ analysis_trace w svc tv sc cb il items @ [EvAggregate],
            Returns (org_result_of org (outcomes w svc tv sc cb il items) cp)))"
proof -
  have n: "notify cb (MsgStartingParallel (length items))
             = (fst (notify cb (MsgStartingParallel (length items))), Returns ())"
    by (simp add: notify_def emit_def ret_def)
  show ?thesis
    unfolding org_analyze_items_def parallel_repo_analysis_succ [OF assms(1,2)]
    using assms(3)
    by (subst n) (simp add: bind_Returns org_tail [OF outcomes_findings] split: sum.splits)
qed

lemma notify_eq: "notify cb msg = (if cb then [Progress msg] else [], Returns ())"
  by (simp add: notify_def emit_def ret_def)

lemma analyze_organization_unfold:
  assumes "org_discovery w svc org mr kc pr cb = (t0, Returns (il, items, cp))"
  shows "analyze_organization w svc org tv sc mr kc pr cb
           = (t0 @ fst (org_analyze_items w svc org tv sc kc cb il items cp),
              snd (org_analyze_items w svc org tv sc kc cb il items cp))"
  by (simp add: analyze_organization_def assms bind_Returns)



lemma org_analyze_items_empty:
  "org_analyze_items w svc org tv sc kc cb il [] cp
     = ([], Raises (Exception (''No Java repositories found in '' @ org)))"
  by (simp add: org_analyze_items_def raise_def)

lemma parallel_repo_analysis_raises:
  "semaphore_new (max_concurrent_repos svc) = Inl e \<Longrightarrow>
   parallel_repo_analysis w svc items tv sc cb il = ([], Raises e)"
  by (simp add: parallel_repo_analysis_def lift_def raise_def bind_Raises)

lemma org_analyze_items_Returns_pool:
  assumes "snd (org_analyze_items w svc org tv sc kc cb il items cp) = Returns r"
  shows "items \<noteq> [] \<and> (\<exists>pool. semaphore_new (max_concurrent_repos svc) = Inr pool \<and> 0 < pool)"
proof -
  have ne: "items \<noteq> []" using assms by (auto simp: org_analyze_items_empty)
  show ?thesis
  proof (cases "semaphore_new (max_concurrent_repos svc)")
    case (Inl e)
    then show ?thesis
      using assms ne
      by (simp add: org_analyze_items_def parallel_repo_analysis_raises notify_eq bind_Returns bind_Raises)
  next
    case (Inr pool)
    show ?thesis
    proof (cases "pool = 0")
      case True
      then show ?thesis
        using assms ne Inr
        by (simp add: org_analyze_items_def parallel_repo_analysis_hangs notify_eq bind_Returns bind_Hangs)
    next
      case False
      then show ?thesis using ne Inr by simp
    qed
  qed
qed


lemma discover_and_clone_Returns:
  assumes "snd (discover_and_clone_remote_repos w svc org pr mr cb) = Returns items"
  shows "\<exists>all_repos err crs.
           list_org_repos w org pr mr = Inr (all_repos, err)
         \<and> java_repos_of (filter_java_repos w) all_repos mr \<noteq> []
         \<and> clone_organization_repositories w (java_repos_of (filter_java_repos w) all_repos mr)
               org (max_concurrent_repos svc) = Inr crs
         \<and> items = filter success crs"
  using assms
  by (auto simp: discover_and_clone_remote_repos_def snd_bind snd_lift
           split: sum.splits prod.splits if_splits)

lemma org_discovery_remote_Returns:
  assumes "\<not> (path_exists w org \<and> path_is_dir w org)"
      and "snd (org_discovery w svc org mr kc pr cb) = Returns (il, items, cp)"
  shows "\<exists>all_repos err crs.
           list_org_repos w org pr mr = Inr (all_repos, err)
         \<and> clone_organization_repositories w (java_repos_of (filter_java_repos w) all_repos mr)
               org (max_concurrent_repos svc) = Inr crs
         \<and> \<not> il \<and> items = map Cloned (filter success crs)
         \<and> cp = (if \<not> kc then None else Some (map local_path (filter success crs)))"
proof -
  from assms obtain its where
    d: "snd (discover_and_clone_remote_repos w svc org pr mr cb) = Returns its"
    and r: "il = False" "items = map Cloned its"
       "cp = (if \<not> kc then None else Some (map local_path (filter success its)))"
    by (auto simp: org_discovery_def snd_bind split: res.splits if_splits)
  from discover_and_clone_Returns [OF d] r show ?thesis by auto
qed

lemma org_discovery_local_flag:
  assumes "snd (org_discovery w svc org mr kc pr cb) = Returns (il, items, cp)"
  shows "il = (path_exists w org \<and> path_is_dir w org)"
  using assms
  by (auto simp: org_discovery_def snd_bind split: res.splits if_splits)

lemma discover_and_clone_events:
  "\<forall>ev \<in> set (fst (discover_and_clone_remote_repos w svc org pr mr cb)). is_discovery_event ev"
  by (auto simp: discover_and_clone_remote_repos_def fst_bind snd_bind bind_emit notify_eq lift_def ret_def raise_def
           split: sum.splits prod.splits if_splits res.splits)

lemma org_discovery_events:
  "\<forall>ev \<in> set (fst (org_discovery w svc org mr kc pr cb)). is_discovery_event ev"
  using discover_and_clone_events [of w svc org pr mr cb]
  by (auto simp: org_discovery_def fst_bind notify_eq ret_def split: res.splits if_splits)

lemma analyze_directory_events:
  "\<forall>ev \<in> set (fst (analyze_directory w a d j s)). is_analysis_event ev"
  by (auto simp: analyze_directory_def bind_emit ret_def split: sum.splits option.splits)

lemma base_repo_analyzer_events:
  "\<forall>ev \<in> set (fst (base_repo_analyzer w svc lp rn tv sc cb)). is_analysis_event ev"
  using analyze_directory_events [of w "analyzer svc" lp tv sc]
  by (auto simp: base_repo_analyzer_def fst_bind snd_bind notify_eq lift_def ret_def raise_def
           split: res.splits sum.splits if_splits pyval.splits)

lemma analysis_trace_events:
  "\<forall>ev \<in> set (analysis_trace w svc tv sc cb il items). is_analysis_event ev"
  using base_repo_analyzer_events
  by (auto simp: analysis_trace_def analyze_item_body_def raise_def split: repo_item.splits if_splits)



lemma org_run_Returns:
  assumes "org_discovery w svc org mr kc pr cb = (t0, Returns (il, items, cp))"
      and "analyze_organization w svc org tv sc mr kc pr cb = (t, Returns r)"
  shows "r = org_result_of org (outcomes w svc tv sc cb il items) cp"
    and "items \<noteq> []"
    and "\<exists>pool. semaphore_new (max_concurrent_repos svc) = Inr pool \<and> 0 < pool"
    and "t = t0 @ (if cb then [Progress (MsgStartingParallel (length items))] else [])
               @ analysis_trace w svc tv sc cb il items
               @ (if \<not> il \<and> \<not> kc then [EvCleanup items, EvAggregate] else [EvAggregate])"
proof -
  have u: "analyze_organization w svc org tv sc mr kc pr cb
           = (t0 @ fst (org_analyze_items w svc org tv sc kc cb il items cp),
              snd (org_analyze_items w svc org tv sc kc cb il items cp))"
    by (rule analyze_organization_unfold [OF assms(1)])
  then have s: "snd (org_analyze_items w svc org tv sc kc cb il items cp) = Returns r"
    and t: "t = t0 @ fst (org_analyze_items w svc org tv sc kc cb il items cp)"
    using assms(2) by simp_all
  from org_analyze_items_Returns_pool [OF s] obtain pool where
    ne: "items \<noteq> []" and pool: "semaphore_new (max_concurrent_repos svc) = Inr pool" "0 < pool"
    by blast
  show "items \<noteq> []" by (rule ne)
  show "\<exists>pool. semaphore_new (max_concurrent_repos svc) = Inr pool \<and> 0 < pool"
    using pool by blast
  note eq = org_analyze_items_eq [OF pool ne, of w org tv sc kc cb il cp]
  show "r = org_result_of org (outcomes w svc tv sc cb il items) cp"
    using s unfolding eq by (auto split: if_splits sum.splits)
  show "t = t0 @ (if cb then [Progress (MsgStartingParallel (length items))] else [])
               @ analysis_trace w svc tv sc cb il items
               @ (if \<not> il \<and> \<not> kc then [EvCleanup items, EvAggregate] else [EvAggregate])"
    using s unfolding t eq by (auto simp: notify_eq split: if_splits sum.splits)
qed












lemma sched_blocked:
  assumes "sched_run body repo_items acts (sched_init 0 n) = Some s"
  shows "acts = []"
proof (cases acts)
  case Nil
  then show ?thesis by simp
next
  case (Cons a as)
  have "sched_step body repo_items a (sched_init 0 n) = None"
    by (cases a) (simp_all add: sched_step_def sched_init_def)
  then show ?thesis using assms Cons by simp
qed

lemma discover_loop_spec:
  "int (length acc) < n \<Longrightarrow> discover_loop xs n acc = (rd, rest) \<Longrightarrow>
   \<exists>seen. xs = seen @ rest \<and> rd = acc @ filter qualifies seen \<and> int (length rd) \<le> n
     \<and> (int (length rd) < n \<longrightarrow> rest = [])
     \<and> (int (length rd) = n \<longrightarrow> seen \<noteq> [] \<and> qualifies (last seen))"
proof (induction xs arbitrary: acc)
  case Nil
  then show ?case by auto
next
  case (Cons item xs)
  show ?case
  proof (cases "qualifies item")
    case False
    then have "discover_loop xs n acc = (rd, rest)"
      using Cons.prems(2) by (auto simp: qualifies_def split: if_splits)
    from Cons.IH [OF Cons.prems(1) this] obtain seen where
      s: "xs = seen @ rest" "rd = acc @ filter qualifies seen" "int (length rd) \<le> n"
         "int (length rd) < n \<longrightarrow> rest = []"
         "int (length rd) = n \<longrightarrow> seen \<noteq> [] \<and> qualifies (last seen)"
      by blast
    show ?thesis
      by (rule exI [of _ "item # seen"]) (use s False in auto)
  next
    case True
    show ?thesis
    proof (cases "n \<le> int (length acc) + 1")
      case full: True
      then have "rd = acc @ [item]" "rest = xs"
        using Cons.prems(2) True by (auto simp: qualifies_def Let_def)
      then show ?thesis
        using True full Cons.prems(1) by (intro exI [of _ "[item]"]) auto
    next
      case more: False
      then have "discover_loop xs n (acc @ [item]) = (rd, rest)"
        using Cons.prems(2) True by (auto simp: qualifies_def Let_def)
      moreover have "int (length (acc @ [item])) < n" using more by simp
      ultimately obtain seen where
        s: "xs = seen @ rest" "rd = (acc @ [item]) @ filter qualifies seen" "int (length rd) \<le> n"
           "int (length rd) < n \<longrightarrow> rest = []"
           "int (length rd) = n \<longrightarrow> seen \<noteq> [] \<and> qualifies (last seen)"
        using Cons.IH by blast
      show ?thesis
        by (rule exI [of _ "item # seen"]) (use s True in auto)
    qed
  qed
qed

section \<open>The example runs\<close>


lemma example_local_discovery:
  "org_discovery example_world example_service ''org'' 50 True ''github'' False
     = ([], Returns (True, local_items, None))"
  by code_simp

lemma example_local_run:
  "analyze_organization example_world example_service ''org'' ''21'' ''all'' 50 True ''github'' False
     = (local_trace, Returns local_result)"
  by code_simp

lemma example_remote_discovery:
  "org_discovery example_world example_service ''acme'' 50 False ''github'' False
     = (remote_discovery_trace, Returns (False, remote_items, None))"
  by code_simp

lemma example_remote_run:
  "analyze_organization example_world example_service ''acme'' ''21'' ''all'' 50 False ''github'' False
     = (remote_discovery_trace @ remote_analysis_trace @ [EvCleanup remote_items, EvAggregate],
        Returns remote_result)"
  by code_simp



section \<open>The claims\<close>



text \<open>
  Claim C2 asks that two items analyzed in one batch use different output files. The
  name of the output file is built from the target version and the scope alone, so the
  tasks of a batch all pass the same \<open>-o\<close> argument to the analyzer and read and delete
  the same path: here the runs for \<open>org/a\<close> and \<open>org/b\<close>, with a pool of two permits.
\<close>

theorem output_path_shared_by_tasks:
  "fst (parallel_repo_analysis example_world example_service
          [LocalDir \<lparr>entry_path = ''org/a'', entry_name = ''a'', entry_is_dir = True,
                     entry_java_files = [''org/a/A.java'']\<rparr>,
           LocalDir \<lparr>entry_path = ''org/b'', entry_name = ''b'', entry_is_dir = True,
                     entry_java_files = [''org/b/B.java'']\<rparr>]
          ''21'' ''all'' False True)
     = [EvRunJar [''java'', ''-Xmx2g'', ''-Xms512m'', ''-Xss4m'', ''-jar'', ''gs-analyzer.jar'',
                  ''-d'', ''org/a'', ''-t'', ''21'', ''--scope'', ''all'',
                  ''-o'', ''temp_analysis_21_all.json''],
        EvUnlink ''oss/outputs/temp_analysis_21_all.json'',
        EvRunJar [''java'', ''-Xmx2g'', ''-Xms512m'', ''-Xss4m'', ''-jar'', ''gs-analyzer.jar'',
                  ''-d'', ''org/b'', ''-t'', ''21'', ''--scope'', ''all'',
                  ''-o'', ''temp_analysis_21_all.json''],
        EvUnlink ''oss/outputs/temp_analysis_21_all.json'']
   \<and> output_path ''21'' ''all'' = ''oss/outputs/temp_analysis_21_all.json''
   \<and> semaphore_new (max_concurrent_repos example_service) = Inr 2"
  by code_simp

text \<open>
  Claim C3, as the code has it. In an organization run that returns, the cleanup is
  called only for a remote organization whose clones are not kept; it is then called
  once, after the events of the analysis of every item and before the aggregation, with
  exactly the clone results that the clone service reported as successful. For a local
  organization and for kept clones the events of the run contain no cleanup.
\<close>

theorem cleanup_after_analysis:
  assumes "org_discovery w svc org mr kc pr cb = (t0, Returns (il, items, cp))"
      and "analyze_organization w svc org tv sc mr kc pr cb = (t, Returns r)"
  shows "t = t0 @ (if cb then [Progress (MsgStartingParallel (length items))] else [])
               @ analysis_trace w svc tv sc cb il items
               @ (if \<not> il \<and> \<not> kc then [EvCleanup items, EvAggregate] else [EvAggregate])
       \<and> list_all is_discovery_event t0
       \<and> list_all is_analysis_event (analysis_trace w svc tv sc cb il items)
       \<and> il = (path_exists w org \<and> path_is_dir w org)
       \<and> (il \<or> (\<exists>all_repos err crs.
                  list_org_repos w org pr mr = Inr (all_repos, err)
                \<and> clone_organization_repositories w
                     (java_repos_of (filter_java_repos w) all_repos mr) org (max_concurrent_repos svc)
                    = Inr crs
                \<and> items = map Cloned (filter success crs)))"
proof -
  have d: "snd (org_discovery w svc org mr kc pr cb) = Returns (il, items, cp)"
    using assms(1) by simp
  have a: "list_all is_discovery_event t0"
    using org_discovery_events [of w svc org mr kc pr cb] assms(1) by (simp add: list_all_iff)
  have b: "list_all is_analysis_event (analysis_trace w svc tv sc cb il items)"
    using analysis_trace_events [of w svc tv sc cb il items] by (simp add: list_all_iff)
  have f: "il = (path_exists w org \<and> path_is_dir w org)"
    by (rule org_discovery_local_flag [OF d])
  have c: "il \<or> (\<exists>all_repos err crs.
                  list_org_repos w org pr mr = Inr (all_repos, err)
                \<and> clone_organization_repositories w
                     (java_repos_of (filter_java_repos w) all_repos mr) org (max_concurrent_repos svc)
                    = Inr crs
                \<and> items = map Cloned (filter success crs))"
  proof (cases il)
    case True
    then show ?thesis by simp
  next
    case False
    then have "\<not> (path_exists w org \<and> path_is_dir w org)" using f by simp
    from org_discovery_remote_Returns [OF this d] show ?thesis by blast
  qed
  show ?thesis
    using org_run_Returns(4) [OF assms] a b c f by blast
qed

theorem cleanup_after_analysis_witness:
  "org_discovery example_world example_service ''acme'' 50 False ''github'' False
     = (remote_discovery_trace, Returns (False, remote_items, None))
   \<and> analyze_organization example_world example_service ''acme'' ''21'' ''all'' 50 False ''github'' False
     = (remote_discovery_trace @ remote_analysis_trace @ [EvCleanup remote_items, EvAggregate],
        Returns remote_result)
   \<and> remote_discovery_trace @ remote_analysis_trace @ [EvCleanup remote_items, EvAggregate]
     = remote_discovery_trace
         @ analysis_trace example_world example_service ''21'' ''all'' False False remote_items
         @ [EvCleanup remote_items, EvAggregate]
   \<and> list_all is_analysis_event
        (analysis_trace example_world example_service ''21'' ''all'' False False remote_items)
   \<and> length example_clones = 5
   \<and> remote_items
     = [Cloned \<lparr>repo_name = ''r1'', local_path = ''clones/r1'', success = True\<rparr>,
        Cloned \<lparr>repo_name = ''r3'', local_path = ''clones/r3'', success = True\<rparr>,
        Cloned \<lparr>repo_name = ''r5'', local_path = ''clones/r5'', success = True\<rparr>]"
proof -
  note t = cleanup_after_analysis [OF example_remote_discovery example_remote_run]
  have a: "remote_discovery_trace @ remote_analysis_trace @ [EvCleanup remote_items, EvAggregate]
     = remote_discovery_trace
         @ analysis_trace example_world example_service ''21'' ''all'' False False remote_items
         @ [EvCleanup remote_items, EvAggregate]"
    using t by simp
  have b: "list_all is_analysis_event
        (analysis_trace example_world example_service ''21'' ''all'' False False remote_items)"
    using t by blast
  have c: "length example_clones = 5" by (simp add: example_clones_def)
  have d: "remote_items
     = [Cloned \<lparr>repo_name = ''r1'', local_path = ''clones/r1'', success = True\<rparr>,
        Cloned \<lparr>repo_name = ''r3'', local_path = ''clones/r3'', success = True\<rparr>,
        Cloned \<lparr>repo_name = ''r5'', local_path = ''clones/r5'', success = True\<rparr>]"
    by (simp add: remote_items_def example_clones_def)
  show ?thesis
    by (intro conjI example_remote_discovery example_remote_run a b c d)
qed

text \<open>
  The order that claim C3 states, cleanup after the aggregation, does not hold: in the
  run on the remote organization \<open>acme\<close> with clones not kept, the cleanup comes first.
\<close>

theorem cleanup_before_aggregation:
  "\<not> cleanup_after_aggregate
       (fst (analyze_organization example_world example_service ''acme'' ''21'' ''all'' 50 False
               ''github'' False))"
  by (simp add: example_remote_run remote_discovery_trace_def remote_analysis_trace_def)





text \<open>
  Claim C6. In an organization run that returns, \<open>total_issues\<close> is the sum that the code
  takes of the lengths of the findings of the reported outcomes, which are the outcomes of
  the successful items only, and the count of each outcome is the length of its findings.
\<close>

theorem total_issues_sums_successes:
  assumes "org_discovery w svc org mr kc pr cb = (t0, Returns (il, items, cp))"
      and "analyze_organization w svc org tv sc mr kc pr cb = (t, Returns r)"
  shows "org_total_issues r = sum_list (map total_issues (repositories r))
       \<and> sum_findings (repositories r) = Inr (org_total_issues r)
       \<and> list_all (\<lambda>x. py_len (findings x) = Inr (total_issues x)) (repositories r)
       \<and> repositories r
           = map (\<lambda>it. the (item_result w svc tv sc cb il it))
               (filter (\<lambda>it. item_result w svc tv sc cb il it \<noteq> None) items)"
proof -
  have r: "r = org_result_of org (outcomes w svc tv sc cb il items) cp"
    by (rule org_run_Returns(1) [OF assms])
  have rs: "repositories r = outcomes w svc tv sc cb il items"
    unfolding r by (simp add: org_result_of_def)
  have f: "\<forall>x \<in> set (repositories r). py_len (findings x) = Inr (total_issues x)"
    unfolding rs by (rule outcomes_findings)
  have a: "org_total_issues r = sum_list (map total_issues (repositories r))"
    unfolding r by (simp add: org_result_of_def)
  have b: "sum_findings (repositories r) = Inr (org_total_issues r)"
    unfolding a by (rule sum_findings_ok [OF f])
  have c: "list_all (\<lambda>x. py_len (findings x) = Inr (total_issues x)) (repositories r)"
    using f by (simp add: list_all_iff)
  show ?thesis
    using a b c rs by (simp add: outcomes_def successes_def)
qed

theorem total_issues_sums_successes_witness:
  "org_discovery example_world example_service ''org'' 50 True ''github'' False
     = ([], Returns (True, local_items, None))
   \<and> analyze_organization example_world example_service ''org'' ''21'' ''all'' 50 True ''github'' False
     = (local_trace, Returns local_result)
   \<and> org_total_issues local_result = sum_list (map total_issues (repositories local_result))
   \<and> sum_findings (repositories local_result) = Inr (org_total_issues local_result)
   \<and> org_total_issues local_result = 6
   \<and> map total_issues (repositories local_result) = [2, 2, 2]"
proof -
  have m: "org_total_issues local_result = 6"
       "map total_issues (repositories local_result) = [2, 2, 2]"
    by (simp_all add: local_result_def example_outcome_def)
  note t = total_issues_sums_successes [OF example_local_discovery example_local_run]
  have a: "org_total_issues local_result = sum_list (map total_issues (repositories local_result))"
    using t by blast
  have b: "sum_findings (repositories local_result) = Inr (org_total_issues local_result)"
    using t by blast
  show ?thesis
    by (intro conjI example_local_discovery example_local_run a b m)
qed



text \<open>
  Claim C8. With \<open>max_repos \<ge> 1\<close>, local discovery returns at most \<open>max_repos\<close>
  items. The loop leaves the directory listing at the entry that completed the list: the
  entries it looked at end with a qualifying entry when the cap is reached, and are all
  the entries when it is not. The result is the qualifying entries among those looked at,
  so every returned item is a non-hidden child directory with at least one Java file.
  Remote discovery cuts the filtered list to at most \<open>max_repos\<close> repositories.
\<close>

theorem discovery_capped:
  assumes "1 \<le> max_repos"
  shows "\<exists>seen rest.
           discover_loop entries max_repos [] = (discover_local_repos entries max_repos, rest)
         \<and> entries = seen @ rest
         \<and> discover_local_repos entries max_repos = filter qualifies seen
         \<and> int (length (discover_local_repos entries max_repos)) \<le> max_repos
         \<and> (int (length (discover_local_repos entries max_repos)) < max_repos \<longrightarrow> rest = [])
         \<and> (int (length (discover_local_repos entries max_repos)) = max_repos
              \<longrightarrow> seen \<noteq> [] \<and> qualifies (last seen))
         \<and> (\<forall>item \<in> set (discover_local_repos entries max_repos).
               item \<in> set entries \<and> entry_is_dir item \<and> \<not> hidden (entry_name item)
               \<and> entry_java_files item \<noteq> [])
         \<and> int (length (java_repos_of flt all_repos max_repos)) \<le> max_repos"
proof -
  obtain rd rest where l: "discover_loop entries max_repos [] = (rd, rest)"
    by (cases "discover_loop entries max_repos []")
  then have rd: "discover_local_repos entries max_repos = rd"
    by (simp add: discover_local_repos_def)
  have "int (length ([]::dir_entry list)) < max_repos" using assms by simp
  from discover_loop_spec [OF this l] obtain seen where
    s: "entries = seen @ rest" "rd = filter qualifies seen" "int (length rd) \<le> max_repos"
       "int (length rd) < max_repos \<longrightarrow> rest = []"
       "int (length rd) = max_repos \<longrightarrow> seen \<noteq> [] \<and> qualifies (last seen)"
    by auto
  have m: "\<forall>item \<in> set rd. item \<in> set entries \<and> entry_is_dir item
             \<and> \<not> hidden (entry_name item) \<and> entry_java_files item \<noteq> []"
    using s(1,2) by (auto simp: qualifies_def)
  have j: "int (length (java_repos_of flt all_repos max_repos)) \<le> max_repos"
    using assms by (simp add: java_repos_of_def py_slice_to_def)
  show ?thesis
    unfolding rd using l s m j by blast
qed

theorem discovery_capped_witness:
  "(1::int) \<le> 2 \<and>
   (\<exists>seen rest.
       discover_loop example_entries 2 [] = (discover_local_repos example_entries 2, rest)
     \<and> example_entries = seen @ rest
     \<and> discover_local_repos example_entries 2 = filter qualifies seen
     \<and> int (length (discover_local_repos example_entries 2)) \<le> 2
     \<and> (int (length (discover_local_repos example_entries 2)) < 2 \<longrightarrow> rest = [])
     \<and> (int (length (discover_local_repos example_entries 2)) = 2
          \<longrightarrow> seen \<noteq> [] \<and> qualifies (last seen))
     \<and> (\<forall>item \<in> set (discover_local_repos example_entries 2).
           item \<in> set example_entries \<and> entry_is_dir item \<and> \<not> hidden (entry_name item)
           \<and> entry_java_files item \<noteq> [])
     \<and> int (length (java_repos_of (filter truthy) [PInt 1, PInt 0, PInt 2, PInt 3] 2)) \<le> 2)
   \<and> map entry_name (discover_local_repos example_entries 2) = [''a'', ''b'']
   \<and> java_repos_of (filter truthy) [PInt 1, PInt 0, PInt 2, PInt 3] 2 = [PInt 1, PInt 2]"
proof -
  have h: "(1::int) \<le> 2" by simp
  have e: "map entry_name (discover_local_repos example_entries 2) = [''a'', ''b'']"
    by (simp add: discover_local_repos_def example_entries_def hidden_def)
  have j: "java_repos_of (filter truthy) [PInt 1, PInt 0, PInt 2, PInt 3] 2 = [PInt 1, PInt 2]"
    by (simp add: java_repos_of_def py_slice_to_def)
  show ?thesis
    using h e j discovery_capped [OF h, of example_entries "filter truthy" "[PInt 1, PInt 0, PInt 2, PInt 3]"]
    by (intro conjI) assumption+
qed



text \<open>
  Claim C10. In an organization run that returns, the reported outcomes are those of the
  successful items, in the order in which the items were discovered, and each carries
  the name of its item.
\<close>

theorem outcomes_keep_input_order:
  assumes "org_discovery w svc org mr kc pr cb = (t0, Returns (il, items, cp))"
      and "analyze_organization w svc org tv sc mr kc pr cb = (t, Returns r)"
  shows "repositories r
           = map (\<lambda>it. the (item_result w svc tv sc cb il it))
               (filter (\<lambda>it. item_result w svc tv sc cb il it \<noteq> None) items)
       \<and> map repository (repositories r)
           = map item_name (filter (\<lambda>it. item_result w svc tv sc cb il it \<noteq> None) items)"
proof -
  have r: "r = org_result_of org (outcomes w svc tv sc cb il items) cp"
    by (rule org_run_Returns(1) [OF assms])
  have "repositories r = outcomes w svc tv sc cb il items"
    unfolding r by (simp add: org_result_of_def)
  then show ?thesis
    using successes_names [of w svc tv sc cb il items]
    by (simp add: outcomes_def successes_def)
qed

theorem outcomes_keep_input_order_witness:
  "org_discovery example_world example_service ''org'' 50 True ''github'' False
     = ([], Returns (True, local_items, None))
   \<and> analyze_organization example_world example_service ''org'' ''21'' ''all'' 50 True ''github'' False
     = (local_trace, Returns local_result)
   \<and> map item_name local_items = [''a'', ''b'', ''c'', ''d'']
   \<and> map repository (repositories local_result)
     = map item_name (filter (\<lambda>it. item_result example_world example_service ''21'' ''all'' False True it \<noteq> None)
         local_items)
   \<and> map repository (repositories local_result) = [''a'', ''b'', ''d'']"
proof -
  have n: "map item_name local_items = [''a'', ''b'', ''c'', ''d'']"
    by (simp add: local_items_def org_entries_def item_name_def)
  have m: "map repository (repositories local_result) = [''a'', ''b'', ''d'']"
    by (simp add: local_result_def example_outcome_def)
  note t = outcomes_keep_input_order [OF example_local_discovery example_local_run]
  have a: "map repository (repositories local_result)
     = map item_name (filter (\<lambda>it. item_result example_world example_service ''21'' ''all'' False True it \<noteq> None)
         local_items)"
    using t by blast
  show ?thesis
    by (intro conjI example_local_discovery example_local_run n a m)
qed

end
